theory Spec2Isabelle
  imports Complex_Main
begin

section \<open>Text\<close>

text \<open>
  The engine is the \<open>Chat\<close> page component: its handlers \<open>handleSendMessage\<close>,
  \<open>startNewWorkflow\<close>, \<open>continueWorkflow\<close>, \<open>replayWorkflow\<close>,
  \<open>processStreamingResponse\<close>, \<open>loadSessionHistory\<close> and the React state they update.

  A JavaScript string is modelled as a \<open>string\<close>; a character stands for the code unit
  with the same number (U+0000 to U+00FF). \<open>is_space\<close> is the white space that
  \<open>String.prototype.trim\<close> removes in that range, \<open>toLowerCase_char\<close> the lower-case
  mapping of that range.
\<close>

definition is_space :: "char \<Rightarrow> bool" where
  "is_space c = (of_char c \<in> {9, 10, 11, 12, 13, 32, 160 :: nat})"

definition trim :: "string \<Rightarrow> string" where
  "trim s = rev (dropWhile is_space (rev (dropWhile is_space s)))"

text \<open>\<open>chunk.split('\n')\<close>: the pieces between line feeds, one more than there are line feeds.\<close>

fun split_newline :: "string \<Rightarrow> string list" where
  "split_newline [] = [[]]"
| "split_newline (c # cs) =
     (if c = CHR 0x0A then [] # split_newline cs
      else (case split_newline cs of [] \<Rightarrow> [[c]] | l # ls \<Rightarrow> (c # l) # ls))"

fun startsWith :: "string \<Rightarrow> string \<Rightarrow> bool" where
  "startsWith s [] = True"
| "startsWith [] (p # ps) = False"
| "startsWith (c # cs) (p # ps) = (c = p \<and> startsWith cs ps)"

text \<open>\<open>s.includes(k)\<close>: \<open>k\<close> occurs in \<open>s\<close> as a contiguous run.\<close>

fun includes_js :: "string \<Rightarrow> string \<Rightarrow> bool" where
  "includes_js [] k = (k = [])"
| "includes_js (c # cs) k = (startsWith (c # cs) k \<or> includes_js cs k)"

definition is_upper :: "char \<Rightarrow> bool" where
  "is_upper c =
     (let n = (of_char c :: nat)
      in (65 \<le> n \<and> n \<le> 90) \<or> (192 \<le> n \<and> n \<le> 222 \<and> n \<noteq> 215))"

text \<open>An upper-case letter of the range and its lower-case letter differ in the bit of value 32.\<close>

definition toLowerCase_char :: "char \<Rightarrow> char" where
  "toLowerCase_char c =
     (if is_upper c
      then (case c of Char b0 b1 b2 b3 b4 b5 b6 b7 \<Rightarrow> Char b0 b1 b2 b3 b4 True b6 b7)
      else c)"

definition toLowerCase :: "string \<Rightarrow> string" where
  "toLowerCase s = map toLowerCase_char s"

text \<open>The decimal rendering of a number in a template literal, as in \<open>HTTP ${response.status}\<close>.\<close>

fun decimal :: "nat \<Rightarrow> string" where
  "decimal n =
     (if n < 10 then [''0123456789'' ! n]
      else decimal (n div 10) @ [''0123456789'' ! (n mod 10)])"

declare decimal.simps [simp del]

section \<open>JSON values\<close>

text \<open>
  The values \<open>JSON.parse\<close> returns. A number is given by its value. The members of an
  object are listed in source order; where a key is repeated the later member is the
  property, as \<open>JSON.parse\<close> has it. A JavaScript value that may be \<open>undefined\<close> is a
  \<open>json option\<close>, \<open>None\<close> being \<open>undefined\<close>.
\<close>

datatype json =
    JNull
  | JBool bool
  | JNum rat
  | JStr string
  | JArr "json list"
  | JObj "(string \<times> json) list"

text \<open>
  \<open>data.k\<close> for the keys the engine reads (\<open>message\<close>, \<open>step\<close>, \<open>session_id\<close>,
  \<open>status\<close>, \<open>intent\<close>, \<open>intent_confidence\<close>): a member of an object, and
  \<open>undefined\<close> on a string, number, boolean or array, none of which has such a
  property. On \<open>null\<close> the access throws; the callers below treat that case before they
  call \<open>property\<close>.
\<close>

fun property :: "json \<Rightarrow> string \<Rightarrow> json option" where
  "property (JObj ms) k = map_of (rev ms) k"
| "property _ k = None"

fun truthy :: "json option \<Rightarrow> bool" where
  "truthy None = False"
| "truthy (Some JNull) = False"
| "truthy (Some (JBool b)) = b"
| "truthy (Some (JNum x)) = (x \<noteq> 0)"
| "truthy (Some (JStr s)) = (s \<noteq> [])"
| "truthy (Some (JArr xs)) = True"
| "truthy (Some (JObj ms)) = True"

text \<open>
  \<open>JSON.parse\<close> itself belongs to the platform. Every function below takes it as the
  parameter \<open>parse\<close>, \<open>None\<close> being a thrown \<open>SyntaxError\<close>, and every general theorem
  holds for every such function. The examples run with \<open>parse_flat\<close>, which reads a
  part of JSON: \<open>null\<close>, \<open>true\<close>, \<open>false\<close>, a non-negative integer of at most 15
  digits, a string without escapes, or an object of such members. On these texts it
  returns what \<open>JSON.parse\<close> returns; every other text it rejects.
\<close>

definition json_ws :: "char \<Rightarrow> bool" where
  "json_ws c = (of_char c \<in> {9, 10, 13, 32 :: nat})"

definition is_digit :: "char \<Rightarrow> bool" where
  "is_digit c = (48 \<le> (of_char c :: nat) \<and> (of_char c :: nat) \<le> 57)"

fun string_body :: "string \<Rightarrow> (string \<times> string) option" where
  "string_body [] = None"
| "string_body (c # cs) =
     (if c = CHR 0x22 then Some ([], cs)
      else if c = CHR 0x5C \<or> (of_char c :: nat) < 32 then None
      else (case string_body cs of None \<Rightarrow> None | Some (t, r) \<Rightarrow> Some (c # t, r)))"

definition digits_value :: "string \<Rightarrow> nat" where
  "digits_value ds = foldl (\<lambda>v d. 10 * v + (of_char d - 48)) 0 ds"

definition scalar :: "string \<Rightarrow> (json \<times> string) option" where
  "scalar s =
     (if startsWith s ''null'' then Some (JNull, drop 4 s)
      else if startsWith s ''true'' then Some (JBool True, drop 4 s)
      else if startsWith s ''false'' then Some (JBool False, drop 5 s)
      else (case s of
              [] \<Rightarrow> None
            | c # cs \<Rightarrow>
                if c = CHR 0x22
                then (case string_body cs of None \<Rightarrow> None | Some (t, r) \<Rightarrow> Some (JStr t, r))
                else (let ds = takeWhile is_digit s
                      in if ds = [] \<or> 15 < length ds \<or> (1 < length ds \<and> c = CHR ''0'')
                         then None
                         else Some (JNum (of_nat (digits_value ds)), dropWhile is_digit s))))"

fun members :: "nat \<Rightarrow> string \<Rightarrow> (string \<times> json) list option" where
  "members 0 s = None"
| "members (Suc n) s =
     (case s of
        [] \<Rightarrow> None
      | c # cs \<Rightarrow>
          if c \<noteq> CHR 0x22 then None
          else (case string_body cs of
                  None \<Rightarrow> None
                | Some (k, r1) \<Rightarrow>
                    (case dropWhile json_ws r1 of
                       [] \<Rightarrow> None
                     | c1 # r2 \<Rightarrow>
                         if c1 \<noteq> CHR '':'' then None
                         else (case scalar (dropWhile json_ws r2) of
                                 None \<Rightarrow> None
                               | Some (v, r3) \<Rightarrow>
                                   (case dropWhile json_ws r3 of
                                      [] \<Rightarrow> None
                                    | c2 # r4 \<Rightarrow>
                                        if c2 = CHR '',''
                                        then map_option ((#) (k, v)) (members n (dropWhile json_ws r4))
                                        else if c2 = CHR 0x7D \<and> dropWhile json_ws r4 = []
                                        then Some [(k, v)]
                                        else None)))))"

definition parse_flat :: "string \<Rightarrow> json option" where
  "parse_flat s =
     (case dropWhile json_ws s of
        [] \<Rightarrow> None
      | c # cs \<Rightarrow>
          if c = CHR 0x7B
          then (case dropWhile json_ws cs of
                  [] \<Rightarrow> None
                | d # ds \<Rightarrow>
                    if d = CHR 0x7D
                    then (if dropWhile json_ws ds = [] then Some (JObj []) else None)
                    else map_option JObj (members (length cs) (d # ds)))
          else (case scalar (c # cs) of
                  None \<Rightarrow> None
                | Some (v, r) \<Rightarrow> if dropWhile json_ws r = [] then Some v else None))"

section \<open>The stream decoder\<close>

text \<open>
  The body of the loop over the lines of a chunk in \<open>processStreamingResponse\<close> first
  classifies the trimmed line and then acts on it. \<open>decode_line\<close> is the classification,
  in the order of the source's tests; the specification calls its result a WireEvent. A
  line that is empty after trimming, a \<open>data: \<close> line whose rest does not parse, and a
  line of neither form give no event.
\<close>

datatype wire_event = Data json | DoneSignal

definition decode_line :: "(string \<Rightarrow> json option) \<Rightarrow> string \<Rightarrow> wire_event option" where
  "decode_line parse line =
     (let trimmedLine = trim line
      in if trimmedLine = [] then None
         else if startsWith trimmedLine ''data: ''
         then (case parse (drop 6 trimmedLine) of None \<Rightarrow> None | Some data \<Rightarrow> Some (Data data))
         else if startsWith trimmedLine ''event: done'' then Some DoneSignal
         else None)"

text \<open>
  Each chunk is split into lines on its own: the source keeps nothing of a chunk for the
  next one. The chunks are the texts that \<open>decoder.decode(value, {stream: true})\<close>
  returns for the successive reads.
\<close>

definition chunk_events :: "(string \<Rightarrow> json option) \<Rightarrow> string \<Rightarrow> wire_event list" where
  "chunk_events parse chunk = List.map_filter (decode_line parse) (split_newline chunk)"

definition stream_events :: "(string \<Rightarrow> json option) \<Rightarrow> string list \<Rightarrow> wire_event list" where
  "stream_events parse chunks = concat (map (chunk_events parse) chunks)"


section \<open>The state of the engine\<close>

datatype role = User | Assistant | System

text \<open>
  The \<open>id\<close> of a Timeline entry is \<open>'1'\<close> for the greeting, \<open>history_${index}\<close> for a
  hydrated entry, \<open>Date.now().toString()\<close> for a user entry and that followed by
  \<open>Math.random()\<close> for an assistant or system entry.
\<close>

datatype entry_id =
    Literal_id string
  | History_id nat
  | Clock_id int
  | Clock_random_id int rat

record message =
  msg_id :: entry_id
  role :: role
  content :: "json option"
  timestamp :: int
  step :: "json option"
  msg_type :: string

text \<open>\<open>actionMode\<close> is \<open>null\<close> (\<open>None\<close>), \<open>'replay'\<close> or \<open>'supplier_response'\<close>.\<close>

datatype action_mode = Replay | Supplier_response

datatype phase = Initial | Awaiting_supplier

record session_info =
  session_id :: "json option"
  status :: "json option"
  intent :: "json option"
  confidence :: "json option"

text \<open>
  A callback handed to \<open>setTimeout\<close>. The callback that \<open>processStreamingResponse\<close>
  schedules at a completion marker reads \<open>workflowPhase\<close>: a constant of the render
  whose handler is running, so the callback carries the value of that render.
\<close>

datatype timer = Done_timer phase | Show_actions_timer

datatype request =
    Start_request string string
  | Continue_request "json option" string
  | Replay_request "json option" string
  | History_request string
  | State_request string

text \<open>
  The state variables of the component, and beside them what the handlers do to the
  world: the callbacks scheduled and not yet run (with their delays in milliseconds), the
  remote operations invoked, and how often the clock and the random generator have been
  read. Navigation, toasts and the application context are the display layer's and are
  left out. A handler is run from its invocation to its end, with no other handler or
  callback in between; a callback it schedules is kept in \<open>timers\<close> and run afterwards.
\<close>

record chat =
  messages :: "message list"
  inputMessage :: string
  isLoading :: bool
  showPostActions :: bool
  actionMode :: "action_mode option"
  workflowPhase :: phase
  sessionInfo :: session_info
  timers :: "(nat \<times> timer) list"
  requests :: "request list"
  ticks :: nat
  draws :: nat

text \<open>The clock and the random generator: the value of the \<open>k\<close>-th read.\<close>

record world =
  date_now :: "nat \<Rightarrow> int"
  math_random :: "nat \<Rightarrow> rat"

text \<open>
  A promise that has settled: resolved with a value, or rejected with an error whose
  \<open>message\<close> is given.
\<close>

datatype 'a settled = Resolved 'a | Rejected string

text \<open>
  The body of a response as its reader delivers it: the decoded chunks, and the error of
  the read that rejects after them, if one does. A response is taken to have a body.
\<close>

record body_stream =
  chunks :: "string list"
  failure :: "string option"

record response =
  ok :: bool
  http_status :: nat
  body_text :: "string settled"
  body :: body_stream

text \<open>
  The payloads of \<open>getWorkflowHistory\<close> and \<open>getWorkflowState\<close>, taken to be objects
  of the shape the service sends: \<open>messages_log\<close> is absent or a list of objects, whose
  \<open>step\<close> and \<open>message\<close> may be any value or absent.
\<close>

record log_record =
  log_step :: "json option"
  log_message :: "json option"

record history =
  messages_log :: "log_record list option"

record workflow_state =
  state_status :: "json option"
  state_intent :: "json option"
  state_intent_confidence :: "json option"

section \<open>Timeline entries\<close>

definition addAssistantMessage :: "world \<Rightarrow> json option \<Rightarrow> json option \<Rightarrow> chat \<Rightarrow> chat" where
  "addAssistantMessage w c st s =
     s\<lparr>messages := messages s @
          [\<lparr>msg_id = Clock_random_id (date_now w (ticks s)) (math_random w (draws s)),
            role = Assistant, content = c, timestamp = date_now w (Suc (ticks s)),
            step = st, msg_type = ''response''\<rparr>],
       ticks := ticks s + 2, draws := Suc (draws s)\<rparr>"

definition addSystemMessage :: "world \<Rightarrow> string \<Rightarrow> string \<Rightarrow> chat \<Rightarrow> chat" where
  "addSystemMessage w c ty s =
     s\<lparr>messages := messages s @
          [\<lparr>msg_id = Clock_random_id (date_now w (ticks s)) (math_random w (draws s)),
            role = System, content = Some (JStr c), timestamp = date_now w (Suc (ticks s)),
            step = None, msg_type = ty\<rparr>],
       ticks := ticks s + 2, draws := Suc (draws s)\<rparr>"

section \<open>Consuming a response stream\<close>

text \<open>
  What the loop body does with a classified line. \<open>r\<close> is the render whose handlers are
  running: what a handler reads from a state variable is the value in \<open>r\<close>, what it
  sets goes to the current state \<open>s\<close>. On the payload \<open>null\<close> the first property access
  throws inside the \<open>try\<close> and the \<open>catch\<close> only logs.
\<close>

definition session_info_of :: "json \<Rightarrow> session_info" where
  "session_info_of data =
     \<lparr>session_id = property data ''session_id'',
      status = property data ''status'',
      intent = property data ''intent'',
      confidence = property data ''intent_confidence''\<rparr>"

fun handle_event :: "world \<Rightarrow> chat \<Rightarrow> bool \<Rightarrow> wire_event \<Rightarrow> chat \<Rightarrow> chat" where
  "handle_event w r isNewWorkflow (Data data) s =
     (if data = JNull then s
      else
        let s1 = (if truthy (property data ''message'')
                  then addAssistantMessage w (property data ''message'') (property data ''step'') s
                  else s)
        in if truthy (property data ''session_id'') \<and> isNewWorkflow
           then s1\<lparr>sessionInfo := session_info_of data\<rparr>
           else s1)"
| "handle_event w r isNewWorkflow DoneSignal s =
     s\<lparr>timers := timers s @ [(1000, Done_timer (workflowPhase r))]\<rparr>"

definition handle_line ::
  "(string \<Rightarrow> json option) \<Rightarrow> world \<Rightarrow> chat \<Rightarrow> bool \<Rightarrow> string \<Rightarrow> chat \<Rightarrow> chat" where
  "handle_line parse w r isNewWorkflow line s =
     (case decode_line parse line of
        None \<Rightarrow> s
      | Some e \<Rightarrow> handle_event w r isNewWorkflow e s)"

text \<open>
  The result is the state after the chunks, and the error the function throws when a read
  rejects. What is left in the text decoder when the stream ends is never asked for.
\<close>

definition processStreamingResponse ::
  "(string \<Rightarrow> json option) \<Rightarrow> world \<Rightarrow> chat \<Rightarrow> body_stream \<Rightarrow> bool \<Rightarrow> chat
     \<Rightarrow> chat \<times> string option" where
  "processStreamingResponse parse w r b isNewWorkflow s =
     (foldl (\<lambda>s1 chunk.
               foldl (\<lambda>s2 line. handle_line parse w r isNewWorkflow line s2) s1
                 (split_newline chunk))
        s (chunks b),
      failure b)"


text \<open>The callbacks, and running the one scheduled first.\<close>

fun fire :: "timer \<Rightarrow> chat \<Rightarrow> chat" where
  "fire (Done_timer p) s =
     (if p = Awaiting_supplier then s\<lparr>actionMode := Some Supplier_response\<rparr>
      else s\<lparr>showPostActions := True\<rparr>)"
| "fire Show_actions_timer s = s\<lparr>showPostActions := True\<rparr>"

definition run_timer :: "chat \<Rightarrow> chat" where
  "run_timer s =
     (case timers s of
        [] \<Rightarrow> s
      | (d, t) # ts \<Rightarrow> fire t (s\<lparr>timers := ts\<rparr>))"

section \<open>The three remote operations\<close>

text \<open>
  \<open>net\<close> is how the request of the operation settles. \<open>thrown_if_not_ok\<close> is the message
  of the error thrown in the \<open>if (!response.ok)\<close> block, where reading the error text
  may itself reject.
\<close>

definition thrown_if_not_ok :: "response \<Rightarrow> string option" where
  "thrown_if_not_ok rsp =
     (if ok rsp then None
      else (case body_text rsp of
              Rejected m \<Rightarrow> Some m
            | Resolved errorText \<Rightarrow>
                Some (''HTTP '' @ decimal (http_status rsp) @ '': '' @ errorText)))"

text \<open>
  A transport failure: the request rejects before any byte arrives, or the response has a
  status that is not a success.
\<close>

definition transport_failed :: "response settled \<Rightarrow> bool" where
  "transport_failed net = (case net of Rejected m \<Rightarrow> True | Resolved rsp \<Rightarrow> \<not> ok rsp)"

definition startNewWorkflow ::
  "(string \<Rightarrow> json option) \<Rightarrow> world \<Rightarrow> chat \<Rightarrow> string \<Rightarrow> response settled \<Rightarrow> chat \<Rightarrow> chat" where
  "startNewWorkflow parse w r userInput net s =
     (let s1 = s\<lparr>requests := requests s @ [Start_request userInput ''quote'']\<rparr>;
          caught = (\<lambda>m. addSystemMessage w (''Failed to start workflow: '' @ m) ''error'')
      in case net of
           Rejected m \<Rightarrow> caught m s1
         | Resolved rsp \<Rightarrow>
             (case thrown_if_not_ok rsp of
                Some m \<Rightarrow> caught m s1
              | None \<Rightarrow>
                  (case processStreamingResponse parse w r (body rsp) True s1 of
                     (s2, None) \<Rightarrow> s2
                   | (s2, Some m) \<Rightarrow> caught m s2)))"

definition continueWorkflow ::
  "(string \<Rightarrow> json option) \<Rightarrow> world \<Rightarrow> chat \<Rightarrow> json option \<Rightarrow> string \<Rightarrow> response settled
     \<Rightarrow> chat \<Rightarrow> chat" where
  "continueWorkflow parse w r sessionId supplierResponse net s =
     (let s1 = s\<lparr>requests := requests s @ [Continue_request sessionId supplierResponse]\<rparr>;
          caught = (\<lambda>m. addSystemMessage w (''Failed to continue workflow: '' @ m) ''error'')
      in case net of
           Rejected m \<Rightarrow> caught m s1
         | Resolved rsp \<Rightarrow>
             (case thrown_if_not_ok rsp of
                Some m \<Rightarrow> caught m s1
              | None \<Rightarrow>
                  (case processStreamingResponse parse w r (body rsp) False s1 of
                     (s2, None) \<Rightarrow> s2
                   | (s2, Some m) \<Rightarrow> caught m s2)))"

definition replayWorkflow ::
  "(string \<Rightarrow> json option) \<Rightarrow> world \<Rightarrow> chat \<Rightarrow> string \<Rightarrow> response settled \<Rightarrow> chat \<Rightarrow> chat" where
  "replayWorkflow parse w r newInput net s =
     (let s1 = s\<lparr>requests := requests s @ [Replay_request (session_id (sessionInfo r)) newInput]\<rparr>;
          caught = (\<lambda>m. addSystemMessage w (''Failed to replay workflow: '' @ m) ''error'')
      in case net of
           Rejected m \<Rightarrow> caught m s1
         | Resolved rsp \<Rightarrow>
             (case thrown_if_not_ok rsp of
                Some m \<Rightarrow> caught m s1
              | None \<Rightarrow>
                  (case processStreamingResponse parse w r (body rsp) False
                          (s1\<lparr>workflowPhase := Awaiting_supplier\<rparr>) of
                     (s2, None) \<Rightarrow> s2
                   | (s2, Some m) \<Rightarrow> caught m s2)))"

section \<open>Submitting input\<close>

text \<open>
  \<open>handleSendMessage\<close> in three parts: what it does before the \<open>try\<close>, the \<open>try\<close> block
  that selects and awaits one remote operation, and the \<open>finally\<close> block. The handler
  runs in the render \<open>s\<close> it is invoked in. The three operations catch every error
  themselves, so the \<open>catch\<close> of \<open>handleSendMessage\<close> is never entered.
\<close>

definition type_of_mode :: "action_mode option \<Rightarrow> string" where
  "type_of_mode m =
     (case m of
        None \<Rightarrow> ''user_input''
      | Some Replay \<Rightarrow> ''replay''
      | Some Supplier_response \<Rightarrow> ''supplier_response'')"

definition handleSendMessage_begin :: "world \<Rightarrow> chat \<Rightarrow> chat" where
  "handleSendMessage_begin w s =
     s\<lparr>messages := messages s @
          [\<lparr>msg_id = Clock_id (date_now w (ticks s)), role = User,
            content = Some (JStr (inputMessage s)), timestamp = date_now w (Suc (ticks s)),
            step = None, msg_type = type_of_mode (actionMode s)\<rparr>],
       inputMessage := [], isLoading := True, showPostActions := False,
       ticks := ticks s + 2\<rparr>"

definition handleSendMessage_try ::
  "(string \<Rightarrow> json option) \<Rightarrow> world \<Rightarrow> chat \<Rightarrow> response settled \<Rightarrow> chat \<Rightarrow> chat" where
  "handleSendMessage_try parse w r net s =
     (let currentInput = inputMessage r
      in if actionMode r = Some Replay then replayWorkflow parse w r currentInput net s
         else if actionMode r = Some Supplier_response \<or> workflowPhase r = Awaiting_supplier
         then continueWorkflow parse w r (session_id (sessionInfo r)) currentInput net s
         else if session_id (sessionInfo r) = Some (JStr ''new'')
         then startNewWorkflow parse w r currentInput net s
         else continueWorkflow parse w r (session_id (sessionInfo r)) currentInput net s)"

definition handleSendMessage_finally :: "chat \<Rightarrow> chat" where
  "handleSendMessage_finally s = s\<lparr>isLoading := False, actionMode := None\<rparr>"

definition handleSendMessage ::
  "(string \<Rightarrow> json option) \<Rightarrow> world \<Rightarrow> response settled \<Rightarrow> chat \<Rightarrow> chat" where
  "handleSendMessage parse w net s =
     (if trim (inputMessage s) = [] \<or> isLoading s then s
      else handleSendMessage_finally
             (handleSendMessage_try parse w s net (handleSendMessage_begin w s)))"

definition handleReplayWorkflow :: "chat \<Rightarrow> chat" where
  "handleReplayWorkflow s =
     s\<lparr>showPostActions := False, actionMode := Some Replay, workflowPhase := Initial\<rparr>"

section \<open>Resuming a session\<close>

text \<open>
  The entry made from the record at \<open>index\<close> of a log of \<open>n\<close> records, the clock having
  been read \<open>k\<close> times before the log is mapped: every record reads the clock once.
\<close>

definition history_message :: "world \<Rightarrow> nat \<Rightarrow> nat \<Rightarrow> nat \<Rightarrow> log_record \<Rightarrow> message" where
  "history_message w k n index msg =
     \<lparr>msg_id = History_id index, role = Assistant, content = log_message msg,
      timestamp = date_now w (k + index) - (int n - int index) * 60000,
      step = log_step msg, msg_type = ''response''\<rparr>"

definition historyMessages :: "world \<Rightarrow> nat \<Rightarrow> log_record list \<Rightarrow> message list" where
  "historyMessages w k entries =
     map (\<lambda>(index, msg). history_message w k (length entries) index msg) (enumerate 0 entries)"

text \<open>
  The block guarded by \<open>history.messages_log && history.messages_log.length > 0\<close>.
  \<open>Inl\<close> is the state in which it throws: \<open>toLowerCase\<close> is called on the content of the
  last entry, which throws unless the content is a string.
\<close>

definition hydrate :: "world \<Rightarrow> log_record list \<Rightarrow> chat \<Rightarrow> chat + chat" where
  "hydrate w entries s =
     (let hm = historyMessages w (ticks s) entries;
          s1 = s\<lparr>messages := messages s @ hm, ticks := ticks s + length entries\<rparr>
      in case content (last hm) of
           Some (JStr c) \<Rightarrow>
             (let s2 = (if includes_js (toLowerCase c) ''supplier'' \<or>
                           includes_js (toLowerCase c) ''quote'' \<or>
                           includes_js (toLowerCase c) ''negotiat''
                        then s1\<lparr>workflowPhase := Awaiting_supplier\<rparr> else s1)
              in Inr (s2\<lparr>timers := timers s2 @ [(500, Show_actions_timer)]\<rparr>))
         | _ \<Rightarrow> Inl s1)"

definition loadSessionHistory ::
  "world \<Rightarrow> string \<Rightarrow> history settled \<Rightarrow> workflow_state settled \<Rightarrow> chat \<Rightarrow> chat" where
  "loadSessionHistory w sessionId historyResult stateResult s =
     (let s0 = s\<lparr>isLoading := True, requests := requests s @ [History_request sessionId]\<rparr>;
          finish = (\<lambda>s'. s'\<lparr>isLoading := False\<rparr>)
      in case historyResult of
           Rejected m \<Rightarrow> finish s0
         | Resolved h \<Rightarrow>
             (case (case messages_log h of
                      None \<Rightarrow> Inr s0
                    | Some entries \<Rightarrow> if entries = [] then Inr s0 else hydrate w entries s0) of
                Inl s1 \<Rightarrow> finish s1
              | Inr s1 \<Rightarrow>
                  (let s2 = s1\<lparr>requests := requests s1 @ [State_request sessionId]\<rparr>
                   in case stateResult of
                        Rejected m \<Rightarrow> finish s2
                      | Resolved sessionState \<Rightarrow>
                          finish
                            (s2\<lparr>sessionInfo :=
                                  \<lparr>session_id = Some (JStr sessionId),
                                   status = state_status sessionState,
                                   intent = state_intent sessionState,
                                   confidence = state_intent_confidence sessionState\<rparr>\<rparr>))))"

text \<open>
  The words of the specification for the resumption heuristic: \<open>k\<close> occurs in \<open>c\<close> when
  the case of letters is ignored, that is, some run of \<open>c\<close> as long as \<open>k\<close> agrees with
  \<open>k\<close> letter by letter up to case.
\<close>

definition same_letter :: "char \<Rightarrow> char \<Rightarrow> bool" where
  "same_letter a b = (toLowerCase_char a = toLowerCase_char b)"

definition occurs_ignoring_case :: "string \<Rightarrow> string \<Rightarrow> bool" where
  "occurs_ignoring_case k c =
     list_ex (\<lambda>i. list_all2 same_letter (take (length k) (drop i c)) k) [0 ..< Suc (length c)]"

definition mentions_counterpart :: "json option \<Rightarrow> bool" where
  "mentions_counterpart v =
     (case v of
        Some (JStr c) \<Rightarrow>
          occurs_ignoring_case ''supplier'' c \<or> occurs_ignoring_case ''quote'' c \<or>
          occurs_ignoring_case ''negotiat'' c
      | _ \<Rightarrow> False)"

text \<open>
  Examples: a clock that advances by one millisecond per read, a session in progress with
  input typed, a session not yet started, a persisted history, and a response whose body
  arrives in the given chunks.
\<close>

definition example_world :: world where
  "example_world = \<lparr>date_now = (\<lambda>k. 1700000000000 + int k), math_random = (\<lambda>k. 1 / 2)\<rparr>"

definition example_chat :: chat where
  "example_chat =
     \<lparr>messages = [], inputMessage = ''silk'', isLoading = False, showPostActions = True,
      actionMode = None, workflowPhase = Initial,
      sessionInfo = \<lparr>session_id = Some (JStr ''abc123''), status = Some (JStr ''active''),
                     intent = Some JNull, confidence = Some JNull\<rparr>,
      timers = [], requests = [], ticks = 0, draws = 0\<rparr>"


definition example_entries :: "log_record list" where
  "example_entries =
     [\<lparr>log_step = Some (JStr ''search''), log_message = Some (JStr ''Searching'')\<rparr>,
      \<lparr>log_step = Some (JStr ''quote''), log_message = Some (JStr ''Sent to SUPPLIER'')\<rparr>]"

definition ok_response :: "string list \<Rightarrow> response settled" where
  "ok_response cs =
     Resolved \<lparr>ok = True, http_status = 200, body_text = Resolved [],
               body = \<lparr>chunks = cs, failure = None\<rparr>\<rparr>"

section \<open>Lines and chunks\<close>




lemma startsWith_iff: "startsWith s p \<longleftrightarrow> (\<exists>r. s = p @ r)"
  by (induction s p rule: startsWith.induct) auto









section \<open>The loop as a fold over the events\<close>

lemma lines_as_events:
  "foldl (\<lambda>s2 line. handle_line parse w r n line s2) s ls =
   foldl (\<lambda>s2 e. handle_event w r n e s2) s (List.map_filter (decode_line parse) ls)"
  by (induction ls arbitrary: s)
    (auto simp: handle_line_def List.map_filter_simps split: option.splits)

lemma chunks_as_events:
  "foldl (\<lambda>s1 chunk.
            foldl (\<lambda>s2 line. handle_line parse w r n line s2) s1 (split_newline chunk)) s cs =
   foldl (\<lambda>s2 e. handle_event w r n e s2) s (stream_events parse cs)"
  by (induction cs arbitrary: s)
    (simp_all add: stream_events_def chunk_events_def lines_as_events)

text \<open>
  \<open>processStreamingResponse\<close> does to the state what its events do to it, one after the
  other.
\<close>

lemma process_as_events:
  "processStreamingResponse parse w r b n s =
     (foldl (\<lambda>s2 e. handle_event w r n e s2) s (stream_events parse (chunks b)), failure b)"
  by (simp add: processStreamingResponse_def chunks_as_events)

lemma handle_event_keeps:
  "actionMode (handle_event w r n e s) = actionMode s"
  "workflowPhase (handle_event w r n e s) = workflowPhase s"
  "requests (handle_event w r n e s) = requests s"
  "isLoading (handle_event w r n e s) = isLoading s"
  "showPostActions (handle_event w r n e s) = showPostActions s"
  by (cases e; simp add: addAssistantMessage_def Let_def)+

lemma events_keep:
  "actionMode (foldl (\<lambda>s2 e. handle_event w r n e s2) s es) = actionMode s"
  "workflowPhase (foldl (\<lambda>s2 e. handle_event w r n e s2) s es) = workflowPhase s"
  "requests (foldl (\<lambda>s2 e. handle_event w r n e s2) s es) = requests s"
  "isLoading (foldl (\<lambda>s2 e. handle_event w r n e s2) s es) = isLoading s"
  "showPostActions (foldl (\<lambda>s2 e. handle_event w r n e s2) s es) = showPostActions s"
  by (induction es arbitrary: s; simp add: handle_event_keeps)+

lemma addSystemMessage_keeps:
  "actionMode (addSystemMessage w c ty s) = actionMode s"
  "workflowPhase (addSystemMessage w c ty s) = workflowPhase s"
  "requests (addSystemMessage w c ty s) = requests s"
  "sessionInfo (addSystemMessage w c ty s) = sessionInfo s"
  "timers (addSystemMessage w c ty s) = timers s"
  "isLoading (addSystemMessage w c ty s) = isLoading s"
  "messages (addSystemMessage w c ty s) = messages s @
      [\<lparr>msg_id = Clock_random_id (date_now w (ticks s)) (math_random w (draws s)),
        role = System, content = Some (JStr c), timestamp = date_now w (Suc (ticks s)),
        step = None, msg_type = ty\<rparr>]"
  by (simp_all add: addSystemMessage_def)

section \<open>Chunk boundaries\<close>




section \<open>A malformed line\<close>




section \<open>The completion marker\<close>

lemma handle_event_timers:
  "timers (handle_event w r n e s) =
     (case e of Data d \<Rightarrow> timers s | DoneSignal \<Rightarrow> timers s @ [(1000, Done_timer (workflowPhase r))])"
  by (cases e) (simp_all add: addAssistantMessage_def Let_def)

text \<open>
  C7 (as amended). A line is taken for the completion marker, and the callback of the
  completion is scheduled for it, exactly when, trimmed, it begins with \<open>event: done\<close>;
  what follows these characters is not looked at.
\<close>

theorem completion_marker_is_a_prefix:
  "(decode_line parse line = Some DoneSignal \<longleftrightarrow> startsWith (trim line) ''event: done'') \<and>
   (timers (handle_line parse w r n line s) \<noteq> timers s \<longleftrightarrow>
      startsWith (trim line) ''event: done'')"
proof -
  have marker: "decode_line parse line = Some DoneSignal \<longleftrightarrow>
      startsWith (trim line) ''event: done''"
  proof (cases "startsWith (trim line) ''data: ''")
    case True
    then have "\<not> startsWith (trim line) ''event: done''"
      by (auto simp: startsWith_iff)
    moreover have "decode_line parse line \<noteq> Some DoneSignal"
      using True by (auto simp: decode_line_def Let_def split: option.splits)
    ultimately show ?thesis by simp
  next
    case False
    then show ?thesis by (auto simp: decode_line_def Let_def)
  qed
  have "timers (handle_line parse w r n line s) \<noteq> timers s \<longleftrightarrow>
      decode_line parse line = Some DoneSignal"
    by (auto simp: handle_line_def handle_event_timers split: option.splits wire_event.splits)
  with marker show ?thesis by simp
qed

text \<open>C7 as stated fails: a line that is not the literal line is taken for the marker.\<close>

theorem completion_marker_counterexample:
  "decode_line parse_flat ''event: done!'' = Some DoneSignal \<and>
   trim ''event: done!'' \<noteq> ''event: done'' \<and>
   timers (handle_line parse_flat example_world example_chat False ''event: done!'' example_chat) =
     [(1000, Done_timer Initial)]"
  by (simp add: handle_line_def decode_line_def trim_def is_space_def example_chat_def)

section \<open>The session id\<close>






section \<open>A failed request\<close>

lemma continueWorkflow_failed:
  assumes "transport_failed net"
  shows "\<exists>m. continueWorkflow parse w r sessionId supplierResponse net s =
           addSystemMessage w (''Failed to continue workflow: '' @ m) ''error''
             (s\<lparr>requests := requests s @ [Continue_request sessionId supplierResponse]\<rparr>)"
proof (cases net)
  case (Rejected m)
  then show ?thesis
    by (intro exI [of _ m]) (simp add: continueWorkflow_def Let_def)
next
  case (Resolved rsp)
  with assms have "\<not> ok rsp" by (simp add: transport_failed_def)
  then obtain m where "thrown_if_not_ok rsp = Some m"
    by (cases "body_text rsp") (simp_all add: thrown_if_not_ok_def)
  with Resolved show ?thesis
    by (intro exI [of _ m]) (simp add: continueWorkflow_def Let_def)
qed

text \<open>
  C5. A Continue call whose request rejects, or whose response has a status that is not a
  success, appends exactly one entry to the Timeline, of role system and type error, and
  changes no entry before it; it leaves the session information, the phase, the action
  mode and the scheduled callbacks as they were; and it has invoked the remote operation
  once.
\<close>

theorem continue_transport_failure:
  assumes "transport_failed net"
  shows "\<exists>e. messages (continueWorkflow parse w r sessionId supplierResponse net s) =
               messages s @ [e] \<and>
             role e = System \<and> msg_type e = ''error'' \<and>
             sessionInfo (continueWorkflow parse w r sessionId supplierResponse net s) =
               sessionInfo s \<and>
             workflowPhase (continueWorkflow parse w r sessionId supplierResponse net s) =
               workflowPhase s \<and>
             actionMode (continueWorkflow parse w r sessionId supplierResponse net s) =
               actionMode s \<and>
             timers (continueWorkflow parse w r sessionId supplierResponse net s) = timers s \<and>
             requests (continueWorkflow parse w r sessionId supplierResponse net s) =
               requests s @ [Continue_request sessionId supplierResponse]"
proof -
  obtain m where eq: "continueWorkflow parse w r sessionId supplierResponse net s =
      addSystemMessage w (''Failed to continue workflow: '' @ m) ''error''
        (s\<lparr>requests := requests s @ [Continue_request sessionId supplierResponse]\<rparr>)"
    using continueWorkflow_failed [OF assms] by blast
  let ?e = "\<lparr>msg_id = Clock_random_id (date_now w (ticks s)) (math_random w (draws s)),
        role = System, content = Some (JStr (''Failed to continue workflow: '' @ m)),
        timestamp = date_now w (Suc (ticks s)), step = None, msg_type = ''error''\<rparr>"
  have "messages (continueWorkflow parse w r sessionId supplierResponse net s) =
      messages s @ [?e]"
    unfolding eq by (simp add: addSystemMessage_keeps)
  moreover have "role ?e = System" "msg_type ?e = ''error''" by simp_all
  moreover have
    "sessionInfo (continueWorkflow parse w r sessionId supplierResponse net s) = sessionInfo s"
    "workflowPhase (continueWorkflow parse w r sessionId supplierResponse net s) =
       workflowPhase s"
    "actionMode (continueWorkflow parse w r sessionId supplierResponse net s) = actionMode s"
    "timers (continueWorkflow parse w r sessionId supplierResponse net s) = timers s"
    "requests (continueWorkflow parse w r sessionId supplierResponse net s) =
       requests s @ [Continue_request sessionId supplierResponse]"
    unfolding eq by (simp_all add: addSystemMessage_keeps)
  ultimately show ?thesis by blast
qed

theorem continue_transport_failure_witness:
  "transport_failed (Rejected ''Failed to fetch'') \<and>
   messages (continueWorkflow parse_flat example_world example_chat (Some (JStr ''abc123''))
               ''silk'' (Rejected ''Failed to fetch'') example_chat) =
     [\<lparr>msg_id = Clock_random_id 1700000000000 (1 / 2), role = System,
       content = Some (JStr ''Failed to continue workflow: Failed to fetch''),
       timestamp = 1700000000001, step = None, msg_type = ''error''\<rparr>] \<and>
   requests (continueWorkflow parse_flat example_world example_chat (Some (JStr ''abc123''))
               ''silk'' (Rejected ''Failed to fetch'') example_chat) =
     [Continue_request (Some (JStr ''abc123'')) ''silk'']"
proof -
  have h: "transport_failed (Rejected ''Failed to fetch'')" by (simp add: transport_failed_def)
  show ?thesis
    using h continue_transport_failure [OF h, of parse_flat example_world example_chat
        "Some (JStr ''abc123'')" "''silk''" example_chat]
    by (simp add: continueWorkflow_def addSystemMessage_def example_chat_def example_world_def)
qed

text \<open>
  The same failure seen from the submission that selects Continue: the Timeline gains the
  user's entry and the error entry, and the session information and the phase are as
  before.
\<close>

lemma submission_fails_in_transport:
  assumes guard: "trim (inputMessage s) \<noteq> []" "\<not> isLoading s"
    and path: "actionMode s \<noteq> Some Replay"
      "actionMode s = Some Supplier_response \<or> workflowPhase s = Awaiting_supplier \<or>
       session_id (sessionInfo s) \<noteq> Some (JStr ''new'')"
    and failed: "transport_failed net"
  shows "\<exists>u e. messages (handleSendMessage parse w net s) = messages s @ [u, e] \<and>
           role u = User \<and> role e = System \<and> msg_type e = ''error'' \<and>
           sessionInfo (handleSendMessage parse w net s) = sessionInfo s \<and>
           workflowPhase (handleSendMessage parse w net s) = workflowPhase s \<and>
           requests (handleSendMessage parse w net s) =
             requests s @ [Continue_request (session_id (sessionInfo s)) (inputMessage s)]"
proof -
  let ?b = "handleSendMessage_begin w s"
  have tried: "handleSendMessage_try parse w s net ?b =
      continueWorkflow parse w s (session_id (sessionInfo s)) (inputMessage s) net ?b"
    using path by (auto simp: handleSendMessage_try_def Let_def)
  obtain e where e: "messages (continueWorkflow parse w s (session_id (sessionInfo s)) (inputMessage s) net ?b) = messages ?b @ [e]"
    "role e = System" "msg_type e = ''error''"
    "sessionInfo (continueWorkflow parse w s (session_id (sessionInfo s)) (inputMessage s) net ?b) = sessionInfo ?b"
    "workflowPhase (continueWorkflow parse w s (session_id (sessionInfo s)) (inputMessage s) net ?b) = workflowPhase ?b"
    "requests (continueWorkflow parse w s (session_id (sessionInfo s)) (inputMessage s) net ?b) =
       requests ?b @ [Continue_request (session_id (sessionInfo s)) (inputMessage s)]"
    using continueWorkflow_failed [OF failed, of parse w s "session_id (sessionInfo s)" "inputMessage s" ?b]
    by (auto simp: addSystemMessage_keeps)
  let ?u = "\<lparr>msg_id = Clock_id (date_now w (ticks s)), role = User,
            content = Some (JStr (inputMessage s)), timestamp = date_now w (Suc (ticks s)),
            step = None, msg_type = type_of_mode (actionMode s)\<rparr>"
  have whole: "handleSendMessage parse w net s =
      handleSendMessage_finally
        (continueWorkflow parse w s (session_id (sessionInfo s)) (inputMessage s) net ?b)"
    using guard by (simp add: handleSendMessage_def tried)
  have "messages (handleSendMessage parse w net s) = messages ?b @ [e]"
    "sessionInfo (handleSendMessage parse w net s) = sessionInfo ?b"
    "workflowPhase (handleSendMessage parse w net s) = workflowPhase ?b"
    "requests (handleSendMessage parse w net s) =
       requests ?b @ [Continue_request (session_id (sessionInfo s)) (inputMessage s)]"
    unfolding whole using e by (simp_all add: handleSendMessage_finally_def)
  then have "messages (handleSendMessage parse w net s) = messages s @ [?u, e]"
    "sessionInfo (handleSendMessage parse w net s) = sessionInfo s"
    "workflowPhase (handleSendMessage parse w net s) = workflowPhase s"
    "requests (handleSendMessage parse w net s) =
       requests s @ [Continue_request (session_id (sessionInfo s)) (inputMessage s)]"
    by (simp_all add: handleSendMessage_begin_def)
  moreover have "role ?u = User" by simp
  ultimately show ?thesis using e(2,3) by blast
qed

section \<open>The action mode during and after a submission\<close>






section \<open>Replay\<close>

text \<open>
  Every callback that a submission schedules at a completion marker holds the phase of
  the render in which the input was submitted, whatever the operation has set the phase
  to since.
\<close>

lemma events_timers:
  "timers (foldl (\<lambda>s2 e. handle_event w r n e s2) s es) =
     timers s @ replicate (length (filter (\<lambda>e. e = DoneSignal) es))
                  (1000, Done_timer (workflowPhase r))"
proof (induction es arbitrary: s)
  case Nil
  show ?case by simp
next
  case (Cons e es)
  show ?case
    by (simp add: Cons.IH handle_event_timers replicate_app_Cons_same
        del: handle_event.simps split: wire_event.splits)
qed

lemma workflows_timers:
  "\<exists>k. timers (startNewWorkflow parse w r userInput net s) =
         timers s @ replicate k (1000, Done_timer (workflowPhase r))"
  "\<exists>k. timers (continueWorkflow parse w r sessionId supplierResponse net s) =
         timers s @ replicate k (1000, Done_timer (workflowPhase r))"
  "\<exists>k. timers (replayWorkflow parse w r newInput net s) =
         timers s @ replicate k (1000, Done_timer (workflowPhase r))"
  by (auto simp: startNewWorkflow_def continueWorkflow_def replayWorkflow_def Let_def
      process_as_events events_timers addSystemMessage_keeps
      split: settled.splits option.splits intro: exI [of _ 0])

lemma submission_timers_hold_submitted_phase:
  "\<exists>k. timers (handleSendMessage parse w net s) =
         timers s @ replicate k (1000, Done_timer (workflowPhase s))"
proof (cases "trim (inputMessage s) = [] \<or> isLoading s")
  case True
  then have "timers (handleSendMessage parse w net s) = timers s @ replicate 0 (1000, Done_timer (workflowPhase s))"
    by (simp add: handleSendMessage_def)
  then show ?thesis by blast
next
  case False
  have "\<exists>k. timers (handleSendMessage_try parse w s net (handleSendMessage_begin w s)) =
      timers (handleSendMessage_begin w s) @ replicate k (1000, Done_timer (workflowPhase s))"
    using workflows_timers [where parse = parse and w = w and r = s and net = net
        and s = "handleSendMessage_begin w s"]
    by (simp add: handleSendMessage_try_def Let_def)
  with False show ?thesis
    by (simp add: handleSendMessage_def handleSendMessage_finally_def handleSendMessage_begin_def)
qed

text \<open>
  C4, at the scenario of the specification. The user asks for a replay in the phase
  \<open>initial\<close> and submits; the stream is the message and the completion marker. The
  phase becomes \<open>awaiting_supplier\<close>, but the callback scheduled at the completion
  marker holds the phase of the render in which the input was submitted, \<open>initial\<close>:
  when it runs it shows the post-turn actions and the action mode stays \<open>null\<close>.
\<close>

theorem replay_done_timer_reads_stale_phase:
  \<open>workflowPhase (handleReplayWorkflow example_chat) = Initial \<and>
   workflowPhase (handleSendMessage parse_flat example_world
      (ok_response [''data: {"message":"Replayed with new input"}\<newline>event: done\<newline>''])
      (handleReplayWorkflow example_chat)) = Awaiting_supplier \<and>
   timers (handleSendMessage parse_flat example_world
      (ok_response [''data: {"message":"Replayed with new input"}\<newline>event: done\<newline>''])
      (handleReplayWorkflow example_chat)) = [(1000, Done_timer Initial)] \<and>
   actionMode (run_timer (handleSendMessage parse_flat example_world
      (ok_response [''data: {"message":"Replayed with new input"}\<newline>event: done\<newline>''])
      (handleReplayWorkflow example_chat))) = None \<and>
   showPostActions (run_timer (handleSendMessage parse_flat example_world
      (ok_response [''data: {"message":"Replayed with new input"}\<newline>event: done\<newline>''])
      (handleReplayWorkflow example_chat)))\<close>
  by (simp add: handleSendMessage_def handleSendMessage_try_def
      handleSendMessage_begin_def handleSendMessage_finally_def handleReplayWorkflow_def
      example_chat_def replayWorkflow_def run_timer_def
      ok_response_def thrown_if_not_ok_def processStreamingResponse_def handle_line_def
      addAssistantMessage_def decode_line_def trim_def is_space_def
      parse_flat_def json_ws_def scalar_def)

section \<open>The submission guard\<close>

lemma workflows_keep_isLoading:
  "isLoading (startNewWorkflow parse w r userInput net s) = isLoading s"
  "isLoading (continueWorkflow parse w r sessionId supplierResponse net s) = isLoading s"
  "isLoading (replayWorkflow parse w r newInput net s) = isLoading s"
  by (simp_all add: startNewWorkflow_def continueWorkflow_def replayWorkflow_def Let_def
      process_as_events events_keep addSystemMessage_keeps
      split: settled.splits option.splits)

text \<open>While the remote operation of a submission runs, \<open>isLoading\<close> is set.\<close>

lemma loading_during_call:
  "isLoading (handleSendMessage_try parse w r net (handleSendMessage_begin w s))"
  by (simp add: handleSendMessage_try_def Let_def workflows_keep_isLoading
      handleSendMessage_begin_def)

text \<open>
  C9. A submission made while \<open>isLoading\<close> is set, or with an input that is empty or
  white space only, returns at once: the whole state is as before, with it the Timeline,
  the session information, the action mode, the phase, and the list of remote operations
  invoked.
\<close>

theorem submit_guard:
  assumes "trim (inputMessage s) = [] \<or> isLoading s"
  shows "handleSendMessage parse w net s = s"
  using assms by (simp add: handleSendMessage_def)

theorem submit_guard_witness:
  "(trim (inputMessage (example_chat\<lparr>inputMessage := ''  ''\<rparr>)) = [] \<or>
      isLoading (example_chat\<lparr>inputMessage := ''  ''\<rparr>)) \<and>
   handleSendMessage parse_flat example_world (Rejected ''Failed to fetch'')
     (example_chat\<lparr>inputMessage := ''  ''\<rparr>) = example_chat\<lparr>inputMessage := ''  ''\<rparr>"
proof -
  have h: "trim (inputMessage (example_chat\<lparr>inputMessage := ''  ''\<rparr>)) = [] \<or>
      isLoading (example_chat\<lparr>inputMessage := ''  ''\<rparr>)"
    by (simp add: trim_def is_space_def)
  show ?thesis
    using h submit_guard [OF h, of parse_flat example_world "Rejected ''Failed to fetch''"]
    by blast
qed

text \<open>
  A second submission, with any input \<open>x\<close>, made in a state in which the remote operation
  of a first one is still running, is refused.
\<close>

lemma submit_refused_during_call:
  "handleSendMessage parse w net2
     ((handleSendMessage_try parse w r net (handleSendMessage_begin w s))\<lparr>inputMessage := x\<rparr>) =
   (handleSendMessage_try parse w r net (handleSendMessage_begin w s))\<lparr>inputMessage := x\<rparr>"
  by (simp add: handleSendMessage_def loading_during_call)

section \<open>Hydration\<close>

lemma length_historyMessages: "length (historyMessages w k es) = length es"
  by (simp add: historyMessages_def)

lemma nth_historyMessages:
  "i < length es \<Longrightarrow>
   historyMessages w k es ! i = history_message w k (length es) i (es ! i)"
  by (simp add: historyMessages_def nth_enumerate_eq)

lemma last_historyMessages:
  assumes "es \<noteq> []"
  shows "last (historyMessages w k es) =
         history_message w k (length es) (length es - 1) (last es)"
proof -
  have "historyMessages w k es \<noteq> []"
    using assms length_historyMessages [of w k es] by auto
  then have "last (historyMessages w k es) = historyMessages w k es ! (length es - 1)"
    by (simp add: last_conv_nth length_historyMessages)
  also have "\<dots> = history_message w k (length es) (length es - 1) (es ! (length es - 1))"
    using assms by (simp add: nth_historyMessages)
  also have "es ! (length es - 1) = last es"
    using assms by (simp add: last_conv_nth)
  finally show ?thesis .
qed

text \<open>Whether the block throws or not, the entries have been appended before.\<close>

lemma hydrate_messages:
  "messages (case hydrate w es s of Inl s1 \<Rightarrow> s1 | Inr s1 \<Rightarrow> s1) =
     messages s @ historyMessages w (ticks s) es"
  by (simp add: hydrate_def Let_def split: option.splits json.splits)

lemma hydrate_phase:
  assumes "es \<noteq> []"
  shows "workflowPhase (case hydrate w es s of Inl s1 \<Rightarrow> s1 | Inr s1 \<Rightarrow> s1) =
     (case log_message (last es) of
        Some (JStr c) \<Rightarrow>
          if includes_js (toLowerCase c) ''supplier'' \<or> includes_js (toLowerCase c) ''quote'' \<or>
             includes_js (toLowerCase c) ''negotiat''
          then Awaiting_supplier else workflowPhase s
      | _ \<Rightarrow> workflowPhase s)"
  by (simp add: hydrate_def Let_def last_historyMessages [OF assms] history_message_def
      split: option.splits json.splits)

text \<open>Neither the state request nor the \<open>finally\<close> block touches the Timeline or the phase.\<close>

lemma loadSessionHistory_after_hydrate:
  assumes "es \<noteq> []"
  shows "messages (loadSessionHistory w sid (Resolved \<lparr>messages_log = Some es\<rparr>) st s) =
           messages (case hydrate w es
                            (s\<lparr>isLoading := True,
                               requests := requests s @ [History_request sid]\<rparr>)
                     of Inl s1 \<Rightarrow> s1 | Inr s1 \<Rightarrow> s1)"
    and "workflowPhase (loadSessionHistory w sid (Resolved \<lparr>messages_log = Some es\<rparr>) st s) =
           workflowPhase (case hydrate w es
                                 (s\<lparr>isLoading := True,
                                    requests := requests s @ [History_request sid]\<rparr>)
                          of Inl s1 \<Rightarrow> s1 | Inr s1 \<Rightarrow> s1)"
  using assms
  by (simp_all add: loadSessionHistory_def Let_def split: sum.splits settled.splits)

text \<open>
  C8. On a clock that does not run backwards, resuming with a non-empty history appends
  one entry per record, in order, each of role assistant and type response with the
  message and step of its record; the timestamp of an entry is earlier than the clock
  reads when the entry is made and at any time after, and the timestamps increase
  strictly along the list.
\<close>

theorem hydration_timestamps:
  assumes clock: "\<forall>i j. i \<le> j \<longrightarrow> date_now w i \<le> date_now w j"
    and "entries \<noteq> []"
  shows "messages (loadSessionHistory w sessionId (Resolved \<lparr>messages_log = Some entries\<rparr>)
                     stateResult s) =
           messages s @ historyMessages w (ticks s) entries \<and>
         length (historyMessages w (ticks s) entries) = length entries \<and>
         (\<forall>i<length entries.
            role (historyMessages w (ticks s) entries ! i) = Assistant \<and>
            msg_type (historyMessages w (ticks s) entries ! i) = ''response'' \<and>
            content (historyMessages w (ticks s) entries ! i) = log_message (entries ! i) \<and>
            step (historyMessages w (ticks s) entries ! i) = log_step (entries ! i) \<and>
            (\<forall>k\<ge>ticks s + i.
               timestamp (historyMessages w (ticks s) entries ! i) < date_now w k)) \<and>
         (\<forall>i j. i < j \<and> j < length entries \<longrightarrow>
            timestamp (historyMessages w (ticks s) entries ! i) <
            timestamp (historyMessages w (ticks s) entries ! j))"
proof (intro conjI allI impI)
  show "messages (loadSessionHistory w sessionId (Resolved \<lparr>messages_log = Some entries\<rparr>)
                     stateResult s) = messages s @ historyMessages w (ticks s) entries"
    by (simp add: loadSessionHistory_after_hydrate(1) [OF assms(2)] hydrate_messages)
next
  show "length (historyMessages w (ticks s) entries) = length entries"
    by (rule length_historyMessages)
next
  fix i assume "i < length entries"
  then show "role (historyMessages w (ticks s) entries ! i) = Assistant"
    "msg_type (historyMessages w (ticks s) entries ! i) = ''response''"
    "content (historyMessages w (ticks s) entries ! i) = log_message (entries ! i)"
    "step (historyMessages w (ticks s) entries ! i) = log_step (entries ! i)"
    by (simp_all add: nth_historyMessages history_message_def)
next
  fix i k assume i: "i < length entries" and k: "ticks s + i \<le> k"
  have "date_now w (ticks s + i) \<le> date_now w k" using clock k by blast
  moreover have "0 < int (length entries) - int i" using i by simp
  ultimately show "timestamp (historyMessages w (ticks s) entries ! i) < date_now w k"
    using i by (simp add: nth_historyMessages history_message_def)
next
  fix i j assume ij: "i < j \<and> j < length entries"
  then have "date_now w (ticks s + i) \<le> date_now w (ticks s + j)" using clock by simp
  moreover have "int i < int j" using ij by simp
  ultimately show "timestamp (historyMessages w (ticks s) entries ! i) <
            timestamp (historyMessages w (ticks s) entries ! j)"
    using ij by (simp add: nth_historyMessages history_message_def)
qed

theorem hydration_timestamps_witness:
  "example_entries \<noteq> [] \<and>
   map timestamp (messages (loadSessionHistory example_world ''abc123''
       (Resolved \<lparr>messages_log = Some example_entries\<rparr>) (Rejected ''Failed to fetch'')
       example_chat)) = [1699999880000, 1699999940001]"
proof -
  have 1: "\<forall>i j. i \<le> j \<longrightarrow> date_now example_world i \<le> date_now example_world j"
    by (simp add: example_world_def)
  have 2: "example_entries \<noteq> []" by (simp add: example_entries_def)
  have "messages (loadSessionHistory example_world ''abc123''
       (Resolved \<lparr>messages_log = Some example_entries\<rparr>) (Rejected ''Failed to fetch'')
       example_chat) =
     messages example_chat @ historyMessages example_world (ticks example_chat) example_entries"
    using hydration_timestamps [OF 1 2, of "''abc123''" "Rejected ''Failed to fetch''"
        example_chat]
    by blast
  then show ?thesis
    using 2
    by (simp add: example_chat_def example_entries_def historyMessages_def history_message_def
        example_world_def enumerate_eq_zip)
qed

section \<open>The phase on resumption\<close>

lemma includes_js_iff: "includes_js s k \<longleftrightarrow> (\<exists>a b. s = a @ k @ b)"
proof (induction s)
  case Nil
  then show ?case by auto
next
  case (Cons c cs)
  show ?case
  proof
    assume "includes_js (c # cs) k"
    then consider "startsWith (c # cs) k" | "includes_js cs k" by auto
    then show "\<exists>a b. c # cs = a @ k @ b"
    proof cases
      case 1
      then obtain r where "c # cs = k @ r" by (auto simp: startsWith_iff)
      then have "c # cs = [] @ k @ r" by simp
      then show ?thesis by blast
    next
      case 2
      then obtain a b where "cs = a @ k @ b" using Cons.IH by auto
      then have "c # cs = (c # a) @ k @ b" by simp
      then show ?thesis by blast
    qed
  next
    assume "\<exists>a b. c # cs = a @ k @ b"
    then obtain a b where ab: "c # cs = a @ k @ b" by auto
    show "includes_js (c # cs) k"
    proof (cases a)
      case Nil
      then have "startsWith (c # cs) k" using ab by (simp add: startsWith_iff)
      then show ?thesis by simp
    next
      case (Cons x a')
      then have "cs = a' @ k @ b" using ab by simp
      then show ?thesis using Cons.IH by auto
    qed
  qed
qed

lemma run_at_index:
  "(\<exists>a b. s = a @ k @ b) \<longleftrightarrow> (\<exists>i\<le>length s. take (length k) (drop i s) = k)"
proof
  assume "\<exists>a b. s = a @ k @ b"
  then obtain a b where "s = a @ k @ b" by auto
  then have "length a \<le> length s \<and> take (length k) (drop (length a) s) = k" by simp
  then show "\<exists>i\<le>length s. take (length k) (drop i s) = k" by blast
next
  assume "\<exists>i\<le>length s. take (length k) (drop i s) = k"
  then obtain i where i: "take (length k) (drop i s) = k" by auto
  have "s = take i s @ take (length k) (drop i s) @ drop (length k) (drop i s)"
    by (metis append_take_drop_id)
  with i have "s = take i s @ k @ drop (length k) (drop i s)" by simp
  then show "\<exists>a b. s = a @ k @ b" by blast
qed

lemma same_letter_lists:
  "list_all2 same_letter xs ys \<longleftrightarrow> toLowerCase xs = toLowerCase ys"
proof (induction xs arbitrary: ys)
  case Nil
  show ?case by (auto simp: toLowerCase_def)
next
  case (Cons x xs)
  show ?case
    using Cons.IH by (cases ys) (auto simp: toLowerCase_def same_letter_def)
qed

text \<open>
  For a key in lower case, looking for it in the lower-cased content is looking for it in
  the content with the case of letters ignored.
\<close>

lemma includes_lower_case:
  assumes "toLowerCase k = k"
  shows "includes_js (toLowerCase c) k \<longleftrightarrow> occurs_ignoring_case k c"
proof -
  have k: "map toLowerCase_char k = k" using assms by (simp add: toLowerCase_def)
  have "includes_js (toLowerCase c) k \<longleftrightarrow>
      (\<exists>i\<le>length c. take (length k) (drop i (toLowerCase c)) = k)"
    by (simp add: includes_js_iff run_at_index toLowerCase_def)
  also have "\<dots> \<longleftrightarrow>
      (\<exists>i\<le>length c. toLowerCase (take (length k) (drop i c)) = toLowerCase k)"
    by (simp add: k toLowerCase_def take_map drop_map)
  also have "\<dots> \<longleftrightarrow>
      (\<exists>i<Suc (length c). toLowerCase (take (length k) (drop i c)) = toLowerCase k)"
    by (simp only: less_Suc_eq_le)
  also have "\<dots> \<longleftrightarrow> occurs_ignoring_case k c"
    unfolding occurs_ignoring_case_def list_ex_iff same_letter_lists
    by (auto simp del: upt_Suc)
  finally show ?thesis .
qed

lemma keywords_lower_case:
  "toLowerCase ''supplier'' = ''supplier''"
  "toLowerCase ''quote'' = ''quote''"
  "toLowerCase ''negotiat'' = ''negotiat''"
  by (simp_all add: toLowerCase_def toLowerCase_char_def is_upper_def)

text \<open>
  C10. Resuming, in the phase \<open>initial\<close>, a session with a non-empty history leaves the
  phase \<open>awaiting_supplier\<close> exactly when the message of the last record is a string in
  which \<open>supplier\<close>, \<open>quote\<close> or \<open>negotiat\<close> occurs with the case of letters ignored, and
  leaves it \<open>initial\<close> otherwise; what the state request returns, or whether it fails,
  plays no part.
\<close>

theorem resumption_phase_heuristic:
  assumes "entries \<noteq> []" and "workflowPhase s = Initial"
  shows "workflowPhase (loadSessionHistory w sessionId
                          (Resolved \<lparr>messages_log = Some entries\<rparr>) stateResult s) =
           (if mentions_counterpart (log_message (last entries)) then Awaiting_supplier
            else Initial)"
  using assms(2)
  by (simp add: loadSessionHistory_after_hydrate(2) [OF assms(1)] hydrate_phase [OF assms(1)]
      mentions_counterpart_def includes_lower_case keywords_lower_case
      split: option.splits json.splits)

theorem resumption_phase_heuristic_witness:
  "example_entries \<noteq> [] \<and> workflowPhase example_chat = Initial \<and>
   mentions_counterpart (log_message (last example_entries)) \<and>
   workflowPhase (loadSessionHistory example_world ''abc123''
       (Resolved \<lparr>messages_log = Some example_entries\<rparr>) (Rejected ''Failed to fetch'')
       example_chat) = Awaiting_supplier"
proof -
  have 1: "example_entries \<noteq> []" by (simp add: example_entries_def)
  have 2: "workflowPhase example_chat = Initial" by (simp add: example_chat_def)
  have 3: "mentions_counterpart (log_message (last example_entries))"
    by (simp add: example_entries_def mentions_counterpart_def occurs_ignoring_case_def
        same_letter_def toLowerCase_char_def is_upper_def)
  show ?thesis
    using 1 2 3 resumption_phase_heuristic [OF 1 2, of example_world "''abc123''"
        "Rejected ''Failed to fetch''"]
    by simp
qed

end
